theory Spec2Isabelle
  imports Complex_Main
begin

section \<open>The safety monitor of capsdrone (src/src/safety_system.py)\<close>

text \<open>
  The module is a Python class \<open>SafetyMonitor\<close> whose methods read the telemetry of a
  vehicle object, compare it with thresholds, append warnings to a log and assign flight
  modes. The embedding keeps the method names. Conventions:
  \<^item> Python numbers (int and float alike) are modelled as exact reals: comparisons,
    \<open>math.radians\<close>, \<open>math.degrees\<close>, \<open>math.sin\<close>, \<open>math.cos\<close>, \<open>math.sqrt\<close> and
    \<open>math.atan2\<close> are the real functions, without rounding, NaN or infinities;
  \<^item> \<open>self\<close> is an explicit state record that every method takes and returns;
  \<^item> an exception is a value: a method that can raise returns \<open>(error + 'a) \<times> monitor\<close>,
    the state being the one reached when the exception left the method (Python keeps
    the mutations made before a raise);
  \<^item> console output (\<open>print\<close>) is not modelled.
\<close>

subsection \<open>Exceptions and the math module\<close>

datatype error =
    ValueError              \<comment> \<open>\<open>math.sqrt\<close> of a negative number: "math domain error"\<close>
  | CommandRejected string  \<comment> \<open>the vehicle interface raised on \<open>vehicle.mode = m\<close>\<close>

definition radians :: "real \<Rightarrow> real" where
  "radians x = x * (pi / 180)"

definition degrees :: "real \<Rightarrow> real" where
  "degrees x = x * (180 / pi)"

definition math_sqrt :: "real \<Rightarrow> error + real" where
  "math_sqrt x = (if x < 0 then Inl ValueError else Inr (sqrt x))"

definition atan2 :: "real \<Rightarrow> real \<Rightarrow> real" where
  "atan2 y x =
     (if 0 < x then arctan (y / x)
      else if x < 0 then (if 0 \<le> y then arctan (y / x) + pi else arctan (y / x) - pi)
      else if 0 < y then pi / 2
      else if y < 0 then - (pi / 2)
      else 0)"

subsection \<open>\<open>calculate_distance\<close> (lines 157-170)\<close>

definition haversine_a :: "real \<Rightarrow> real \<Rightarrow> real \<Rightarrow> real \<Rightarrow> real" where
  \<comment> \<open>line 166, the value bound to \<open>a\<close>\<close>
  "haversine_a lat1 lon1 lat2 lon2 =
     (let lat1_rad = radians lat1;
          lat2_rad = radians lat2;
          delta_lat = radians (lat2 - lat1);
          delta_lon = radians (lon2 - lon1)
      in (sin (delta_lat / 2))\<^sup>2
           + cos lat1_rad * cos lat2_rad * (sin (delta_lon / 2))\<^sup>2)"

definition calculate_distance :: "real \<Rightarrow> real \<Rightarrow> real \<Rightarrow> real \<Rightarrow> error + real" where
  "calculate_distance lat1 lon1 lat2 lon2 =
     (let R = 6371000;
          a = haversine_a lat1 lon1 lat2 lon2
      in case math_sqrt a of
           Inl e \<Rightarrow> Inl e
         | Inr sa \<Rightarrow>
             (case math_sqrt (1 - a) of
                Inl e \<Rightarrow> Inl e
              | Inr sb \<Rightarrow> Inr (R * (2 * atan2 sa sb))))"

text \<open>
  The number that \<open>calculate_distance\<close> returns when neither \<open>math.sqrt\<close> raises.
\<close>

definition distance_m :: "real \<Rightarrow> real \<Rightarrow> real \<Rightarrow> real \<Rightarrow> real" where
  "distance_m lat1 lon1 lat2 lon2 =
     6371000 * (2 * atan2 (sqrt (haversine_a lat1 lon1 lat2 lon2))
                          (sqrt (1 - haversine_a lat1 lon1 lat2 lon2)))"

subsection \<open>The vehicle interface\<close>

text \<open>
  The monitor reads \<open>vehicle.location.global_relative_frame.{lat,lon,alt}\<close>,
  \<open>vehicle.battery.level\<close>, \<open>vehicle.attitude.{pitch,roll}\<close> (radians) and
  \<open>vehicle.mode\<close>, and it assigns \<open>vehicle.mode\<close>. The flight mode is modelled by its
  label. The assignment is the one call into the flight controller that the monitor makes;
  \<open>rejects\<close> lists the mode labels for which the interface raises instead of switching.
\<close>

record vehicle =
  lat :: real
  lon :: real
  alt :: real
  battery_level :: real
  pitch :: real
  roll :: real
  mode :: string
  rejects :: "string list"

subsection \<open>Clock and string formatting\<close>

record datetime =
  year :: nat
  month :: nat
  day :: nat
  hour :: nat
  minute :: nat
  second :: nat

definition digit :: "nat \<Rightarrow> char" where
  "digit n = ''0123456789'' ! (n mod 10)"

definition zero_pad2 :: "nat \<Rightarrow> string" where
  "zero_pad2 n = [digit (n div 10), digit n]"

definition zero_pad4 :: "nat \<Rightarrow> string" where
  "zero_pad4 n = [digit (n div 1000), digit (n div 100), digit (n div 10), digit n]"

definition strftime :: "datetime \<Rightarrow> string" where
  \<comment> \<open>\<open>strftime("%Y-%m-%d %H:%M:%S")\<close>, line 240\<close>
  "strftime dt =
     zero_pad4 (year dt) @ ''-'' @ zero_pad2 (month dt) @ ''-'' @ zero_pad2 (day dt) @ '' '' @
     zero_pad2 (hour dt) @ '':'' @ zero_pad2 (minute dt) @ '':'' @ zero_pad2 (second dt)"

text \<open>
  What the Python runtime supplies: the value of the \<open>n\<close>-th call of \<open>datetime.now()\<close>,
  and the text that an f-string produces for a number, with the format \<open>.1f\<close>
  (\<open>fmt_1f\<close>) and with no format (\<open>fmt_str\<close>).
\<close>

record pyenv =
  now_at :: "nat \<Rightarrow> datetime"
  fmt_1f :: "real \<Rightarrow> string"
  fmt_str :: "real \<Rightarrow> string"

definition newline :: char where
  "newline = CHR 0x0A"

definition degree_sign :: string where
  \<comment> \<open>U+00B0 in UTF-8\<close>
  "degree_sign = [CHR 0xC2, CHR 0xB0]"

subsection \<open>The monitor state (\<open>__init__\<close>, lines 22-44)\<close>

text \<open>
  \<open>clock\<close> counts the calls of \<open>datetime.now()\<close> made so far. \<open>issued\<close> is the trace of
  the corrective commands carried out: every mode assignment that the vehicle accepted, and
  every descent advisory of \<open>descend_to_safe_altitude\<close> (whose only effect in the source is
  its console line).
\<close>

datatype command = SetMode string | DescendTo real

record monitor =
  vehicle :: "vehicle option"
  max_altitude :: real
  max_distance :: real
  min_battery :: real
  max_tilt_angle :: real
  geofence_enabled :: bool
  geofence_radius :: real
  home_lat :: "real option"
  home_lon :: "real option"
  monitoring :: bool
  emergency_triggered :: bool
  safety_log :: "string list"
  clock :: nat
  issued :: "command list"

record config =
  cfg_max_altitude :: "real option"
  cfg_max_distance :: "real option"
  cfg_min_battery :: "real option"
  cfg_max_tilt_angle :: "real option"
  cfg_geofence_enabled :: "bool option"
  cfg_geofence_radius :: "real option"

definition config_get :: "'a option \<Rightarrow> 'a \<Rightarrow> 'a" where
  "config_get entry dflt = (case entry of None \<Rightarrow> dflt | Some x \<Rightarrow> x)"

definition SafetyMonitor :: "vehicle option \<Rightarrow> config \<Rightarrow> monitor" where
  "SafetyMonitor veh cfg =
     \<lparr> vehicle = veh,
       max_altitude = config_get (cfg_max_altitude cfg) 10,
       max_distance = config_get (cfg_max_distance cfg) 100,
       min_battery = config_get (cfg_min_battery cfg) 20,
       max_tilt_angle = config_get (cfg_max_tilt_angle cfg) 45,
       geofence_enabled = config_get (cfg_geofence_enabled cfg) True,
       geofence_radius = config_get (cfg_geofence_radius cfg) 100,
       home_lat = None,
       home_lon = None,
       monitoring = False,
       emergency_triggered = False,
       safety_log = [],
       clock = 0,
       issued = [] \<rparr>"

subsection \<open>\<open>set_home_position\<close> (lines 52-61)\<close>

definition set_home_position :: "monitor \<Rightarrow> monitor" where
  "set_home_position s =
     (case vehicle s of
        Some v \<Rightarrow> s\<lparr>home_lat := Some (lat v), home_lon := Some (lon v)\<rparr>
      | None \<Rightarrow> s\<lparr>home_lat := Some 0, home_lon := Some 0\<rparr>)"

subsection \<open>\<open>log_warning\<close> (lines 238-243)\<close>

definition log_entry :: "string \<Rightarrow> string \<Rightarrow> string" where
  \<comment> \<open>line 241: \<open>f"[{timestamp}] {message}"\<close>\<close>
  "log_entry timestamp message = ''['' @ timestamp @ ''] '' @ message"

definition log_warning :: "pyenv \<Rightarrow> string \<Rightarrow> monitor \<Rightarrow> monitor" where
  "log_warning env message s =
     (let timestamp = strftime (now_at env (clock s))
      in s\<lparr>safety_log := safety_log s @ [log_entry timestamp message],
            clock := Suc (clock s)\<rparr>)"

subsection \<open>The four checks (lines 93-155)\<close>

definition check_altitude :: "pyenv \<Rightarrow> monitor \<Rightarrow> bool \<times> monitor" where
  "check_altitude env s =
     (case vehicle s of
        None \<Rightarrow> (True, s)
      | Some v \<Rightarrow>
          (let current_alt = alt v
           in if current_alt > max_altitude s
              then (False, log_warning env
                      (''Altitude exceeded: '' @ fmt_1f env current_alt @ ''m > ''
                         @ fmt_str env (max_altitude s) @ ''m'') s)
              else (True, s)))"

definition check_battery :: "pyenv \<Rightarrow> monitor \<Rightarrow> bool \<times> monitor" where
  "check_battery env s =
     (case vehicle s of
        None \<Rightarrow> (True, s)
      | Some v \<Rightarrow>
          (let level = battery_level v
           in if level < min_battery s
              then (False, log_warning env
                      (''Low battery: '' @ fmt_str env level @ ''% < ''
                         @ fmt_str env (min_battery s) @ ''%'') s)
              else (True, s)))"

definition check_tilt :: "pyenv \<Rightarrow> monitor \<Rightarrow> bool \<times> monitor" where
  "check_tilt env s =
     (case vehicle s of
        None \<Rightarrow> (True, s)
      | Some v \<Rightarrow>
          (let pitch_deg = degrees (pitch v);
               roll_deg = degrees (roll v)
           in if \<bar>pitch_deg\<bar> > max_tilt_angle s \<or> \<bar>roll_deg\<bar> > max_tilt_angle s
              then (False, log_warning env
                      (''Excessive tilt detected! Pitch: '' @ fmt_1f env pitch_deg @ degree_sign
                         @ '', Roll: '' @ fmt_1f env roll_deg @ degree_sign) s)
              else (True, s)))"

definition check_geofence :: "pyenv \<Rightarrow> monitor \<Rightarrow> (error + bool) \<times> monitor" where
  "check_geofence env s =
     (case vehicle s of
        None \<Rightarrow> (Inr True, s)
      | Some v \<Rightarrow>
          if \<not> geofence_enabled s then (Inr True, s)
          else
            (case home_lat s of
               None \<Rightarrow> (Inr True, s)
             | Some hlat \<Rightarrow>
                 (case home_lon s of
                    None \<Rightarrow> (Inr True, s)
                  | Some hlon \<Rightarrow>
                      (case calculate_distance hlat hlon (lat v) (lon v) of
                         Inl e \<Rightarrow> (Inl e, s)
                       | Inr distance \<Rightarrow>
                           if distance > geofence_radius s
                           then (Inr False, log_warning env
                                   (''Geofence breach: '' @ fmt_1f env distance @ ''m > ''
                                      @ fmt_str env (geofence_radius s) @ ''m'') s)
                           else (Inr True, s)))))"

subsection \<open>\<open>is_safe\<close> (lines 172-180)\<close>

text \<open>Python's \<open>and\<close> stops at the first check that returns False.\<close>

definition is_safe :: "pyenv \<Rightarrow> monitor \<Rightarrow> (error + bool) \<times> monitor" where
  "is_safe env s =
     (case vehicle s of
        None \<Rightarrow> (Inr True, s)
      | Some v \<Rightarrow>
          (case check_altitude env s of (a, s1) \<Rightarrow>
             if \<not> a then (Inr False, s1)
             else (case check_battery env s1 of (b, s2) \<Rightarrow>
               if \<not> b then (Inr False, s2)
               else (case check_tilt env s2 of (t, s3) \<Rightarrow>
                 if \<not> t then (Inr False, s3)
                 else check_geofence env s3))))"

subsection \<open>The background loop (lines 81-91)\<close>

definition monitor_tick :: "pyenv \<Rightarrow> monitor \<Rightarrow> (error + unit) \<times> monitor" where
  \<comment> \<open>one iteration of the \<open>while\<close> body, lines 84-89; the results of the checks are dropped\<close>
  "monitor_tick env s =
     (case vehicle s of
        None \<Rightarrow> (Inr (), s)
      | Some v \<Rightarrow>
          (case check_altitude env s of (a, s1) \<Rightarrow>
           case check_battery env s1 of (b, s2) \<Rightarrow>
           case check_tilt env s2 of (t, s3) \<Rightarrow>
           case check_geofence env s3 of
             (Inl e, s4) \<Rightarrow> (Inl e, s4)
           | (Inr g, s4) \<Rightarrow> (Inr (), s4)))"

text \<open>
  \<open>_monitor_loop\<close>. Between two iterations (during \<open>time.sleep(0.5)\<close>) the vehicle moves
  and other threads call the monitor; the list gives what each pause does to the state. The
  loop ends when \<open>monitoring\<close> is found False or when a tick raises (the thread dies);
  \<open>None\<close> means that it is still running when the list is used up.
\<close>

fun monitor_loop :: "pyenv \<Rightarrow> (monitor \<Rightarrow> monitor) list \<Rightarrow> monitor
    \<Rightarrow> ((error + unit) \<times> monitor) option" where
  "monitor_loop env [] s = (if monitoring s then None else Some (Inr (), s))"
| "monitor_loop env (pause # pauses) s =
     (if monitoring s
      then (case monitor_tick env s of
              (Inl e, s') \<Rightarrow> Some (Inl e, s')
            | (Inr u, s') \<Rightarrow> monitor_loop env pauses (pause s'))
      else Some (Inr (), s))"

subsection \<open>Corrective actions (lines 219-236)\<close>

definition assign_mode :: "string \<Rightarrow> vehicle \<Rightarrow> monitor \<Rightarrow> (error + unit) \<times> monitor" where
  \<comment> \<open>\<open>self.vehicle.mode = m\<close>\<close>
  "assign_mode m v s =
     (if m \<in> set (rejects v) then (Inl (CommandRejected m), s)
      else (Inr (), s\<lparr>vehicle := Some (v\<lparr>mode := m\<rparr>), issued := issued s @ [SetMode m]\<rparr>))"

definition return_to_home :: "monitor \<Rightarrow> (error + unit) \<times> monitor" where
  "return_to_home s =
     (case vehicle s of None \<Rightarrow> (Inr (), s) | Some v \<Rightarrow> assign_mode ''RTL'' v s)"

definition emergency_land :: "monitor \<Rightarrow> (error + unit) \<times> monitor" where
  "emergency_land s =
     (case vehicle s of None \<Rightarrow> (Inr (), s) | Some v \<Rightarrow> assign_mode ''LAND'' v s)"

definition descend_to_safe_altitude :: "monitor \<Rightarrow> monitor" where
  "descend_to_safe_altitude s =
     (case vehicle s of
        None \<Rightarrow> s
      | Some v \<Rightarrow> (let safe_alt = max_altitude s * 0.8
                   in s\<lparr>issued := issued s @ [DescendTo safe_alt]\<rparr>))"

subsection \<open>\<open>handle_emergency\<close> (lines 182-217)\<close>

definition dispatch_cause :: "pyenv \<Rightarrow> monitor \<Rightarrow> (error + unit) \<times> monitor" where
  \<comment> \<open>the body of \<open>try\<close>, lines 196-210\<close>
  "dispatch_cause env s =
     (case check_battery env s of (b, s1) \<Rightarrow>
        if \<not> b then return_to_home s1
        else (case check_tilt env s1 of (t, s2) \<Rightarrow>
          if \<not> t then emergency_land s2
          else (case check_geofence env s2 of
                  (Inl e, s3) \<Rightarrow> (Inl e, s3)
                | (Inr g, s3) \<Rightarrow>
                    if \<not> g then return_to_home s3
                    else (case check_altitude env s3 of (a, s4) \<Rightarrow>
                      if \<not> a then (Inr (), descend_to_safe_altitude s4)
                      else (Inr (), s4)))))"

definition emergency_protocol :: "pyenv \<Rightarrow> monitor \<Rightarrow> (error + unit) \<times> monitor" where
  \<comment> \<open>lines 188-217: what a call does once it has set the flag\<close>
  "emergency_protocol env s =
     (case vehicle s of
        None \<Rightarrow> (Inr (), s)
      | Some v \<Rightarrow>
          (case (case dispatch_cause env s of
                   (Inl e, s1) \<Rightarrow> emergency_land s1
                 | (Inr u, s1) \<Rightarrow> (Inr u, s1)) of
             (r, s2) \<Rightarrow> (r, s2\<lparr>emergency_triggered := False\<rparr>)))"

definition handle_emergency :: "pyenv \<Rightarrow> monitor \<Rightarrow> (error + unit) \<times> monitor" where
  "handle_emergency env s =
     (if emergency_triggered s then (Inr (), s)
      else emergency_protocol env (s\<lparr>emergency_triggered := True\<rparr>))"

subsection \<open>\<open>get_safety_status\<close> (lines 245-277)\<close>

datatype pyval = PBool bool | PStr string | PNum real

definition truthy :: "real option \<Rightarrow> bool" where
  \<comment> \<open>the truth value of \<open>None\<close> or of a number\<close>
  "truthy x = (case x of None \<Rightarrow> False | Some r \<Rightarrow> r \<noteq> 0)"

definition status_distance :: "monitor \<Rightarrow> vehicle \<Rightarrow> error + real" where
  \<comment> \<open>lines 257-266\<close>
  "status_distance s v =
     (let current_lat = lat v;
          current_lon = lon v
      in if truthy (home_lat s) \<and> truthy (home_lon s)
         then (case home_lat s of
                 None \<Rightarrow> Inr 0
               | Some hlat \<Rightarrow>
                   (case home_lon s of
                      None \<Rightarrow> Inr 0
                    | Some hlon \<Rightarrow> calculate_distance hlat hlon current_lat current_lon))
         else Inr 0)"

definition get_safety_status :: "pyenv \<Rightarrow> monitor \<Rightarrow> (error + (string \<times> pyval) list) \<times> monitor" where
  "get_safety_status env s =
     (case vehicle s of
        None \<Rightarrow>
          (Inr [(''safe'', PBool True),
                (''mode'', PStr ''SIMULATION''),
                (''altitude'', PNum 0),
                (''battery'', PNum 100),
                (''tilt'', PNum 0),
                (''distance_from_home'', PNum 0)], s)
      | Some v \<Rightarrow>
          (case status_distance s v of
             Inl e \<Rightarrow> (Inl e, s)
           | Inr distance \<Rightarrow>
               (case is_safe env s of
                  (Inl e, s') \<Rightarrow> (Inl e, s')
                | (Inr safe, s') \<Rightarrow>
                    (Inr [(''safe'', PBool safe),
                          (''mode'', PStr (mode v)),
                          (''altitude'', PNum (alt v)),
                          (''battery'', PNum (battery_level v)),
                          (''tilt_pitch'', PNum (degrees (pitch v))),
                          (''tilt_roll'', PNum (degrees (roll v))),
                          (''distance_from_home'', PNum distance),
                          (''warnings'', PNum (real (length (safety_log s'))))], s'))))"

subsection \<open>\<open>save_log\<close> (lines 279-285)\<close>

fun write_entries :: "string \<Rightarrow> string list \<Rightarrow> string" where
  \<comment> \<open>the \<open>for\<close> loop: each \<open>f.write(entry + "\n")\<close> extends the text written so far\<close>
  "write_entries f [] = f"
| "write_entries f (entry # entries) = write_entries (f @ entry @ [newline]) entries"

definition log_file_text :: "string list \<Rightarrow> string" where
  "log_file_text entries =
     write_entries (''=== Drone Safety Log ==='' @ [newline, newline]) entries"

definition save_log :: "monitor \<Rightarrow> string \<Rightarrow> (string \<rightharpoonup> string) \<Rightarrow> (string \<rightharpoonup> string)" where
  \<comment> \<open>the file system maps a file name to the file's text\<close>
  "save_log s filename files = files(filename \<mapsto> log_file_text (safety_log s))"

subsection \<open>Reading an exported log back\<close>

text \<open>
  The source has no reader for the file that \<open>save_log\<close> writes. This one follows the
  specification's description of the file: a header line, a blank line, then one line
  \<open>[timestamp] message\<close> per entry.
\<close>

fun split_lines :: "string \<Rightarrow> string \<Rightarrow> string list" where
  "split_lines cur [] = (if cur = [] then [] else [cur])"
| "split_lines cur (c # cs) =
     (if c = newline then cur # split_lines [] cs else split_lines (cur @ [c]) cs)"

definition parse_entry :: "string \<Rightarrow> (string \<times> string) option" where
  "parse_entry line =
     (case line of
        [] \<Rightarrow> None
      | c # rest \<Rightarrow>
          if c \<noteq> CHR ''['' then None
          else (case dropWhile (\<lambda>x. x \<noteq> CHR '']'') rest of
                  b # sp # message \<Rightarrow>
                    if sp = CHR '' ''
                    then Some (takeWhile (\<lambda>x. x \<noteq> CHR '']'') rest, message)
                    else None
                | _ \<Rightarrow> None))"

definition read_log :: "string \<Rightarrow> (string \<times> string) list option" where
  "read_log text =
     (case split_lines [] text of
        header # blank # entries \<Rightarrow>
          if header = ''=== Drone Safety Log ==='' \<and> blank = []
          then those (map parse_entry entries)
          else None
      | _ \<Rightarrow> None)"

subsection \<open>Sequences of calls\<close>

text \<open>
  \<open>log_warnings\<close> is a sequence of calls of \<open>log_warning\<close>, one per message, and
  \<open>stamped\<close> gives the (timestamp, message) pairs that these calls log when the first of
  them is the \<open>c\<close>-th reading of the clock.
\<close>

fun log_warnings :: "pyenv \<Rightarrow> string list \<Rightarrow> monitor \<Rightarrow> monitor" where
  "log_warnings env [] s = s"
| "log_warnings env (m # ms) s = log_warnings env ms (log_warning env m s)"

fun stamped :: "pyenv \<Rightarrow> nat \<Rightarrow> string list \<Rightarrow> (string \<times> string) list" where
  "stamped env c [] = []"
| "stamped env c (m # ms) = (strftime (now_at env c), m) # stamped env (Suc c) ms"

text \<open>
  Two requests for \<open>handle_emergency\<close> that overlap: the first has passed the test of
  line 184 and set the flag (line 187) when the second is made; the second runs to its
  return, and then the first carries on from line 188.
\<close>

definition overlapping_requests :: "pyenv \<Rightarrow> monitor \<Rightarrow> (error + unit) \<times> monitor" where
  "overlapping_requests env s =
     (let s1 = s\<lparr>emergency_triggered := True\<rparr>;
          s2 = snd (handle_emergency env s1)
      in emergency_protocol env s2)"

subsection \<open>The module's own test data (lines 289-339) and example states\<close>

definition mock_vehicle :: vehicle where
  \<comment> \<open>\<open>MockVehicle\<close>, lines 293-324; it accepts every mode\<close>
  "mock_vehicle =
     \<lparr> lat = 13.7563, lon = 100.5018, alt = 5.0, battery_level = 80,
       pitch = 0.1, roll = 0.05, mode = ''GUIDED'', rejects = [] \<rparr>"

definition test_config :: config where
  \<comment> \<open>lines 327-334\<close>
  "test_config =
     \<lparr> cfg_max_altitude = Some 10, cfg_max_distance = Some 100,
       cfg_min_battery = Some 20, cfg_max_tilt_angle = Some 45,
       cfg_geofence_enabled = Some True, cfg_geofence_radius = Some 100 \<rparr>"

definition test_env :: pyenv where
  \<comment> \<open>a clock that advances one second per reading; numbers print as a placeholder\<close>
  "test_env =
     \<lparr> now_at = (\<lambda>n. \<lparr> year = 2024, month = 5, day = 17, hour = 9, minute = 30, second = n \<rparr>),
       fmt_1f = (\<lambda>x. ''#.#''),
       fmt_str = (\<lambda>x. ''#'') \<rparr>"

definition sim_monitor :: monitor where
  \<comment> \<open>simulation mode: no vehicle\<close>
  "sim_monitor = SafetyMonitor None test_config"

definition test_monitor :: monitor where
  \<comment> \<open>lines 337-339\<close>
  "test_monitor = set_home_position (SafetyMonitor (Some mock_vehicle) test_config)"

definition high_and_low_monitor :: monitor where
  \<comment> \<open>above the ceiling with a low battery; home not set\<close>
  "high_and_low_monitor =
     SafetyMonitor (Some (mock_vehicle\<lparr>alt := 12, battery_level := 15\<rparr>)) test_config"

definition low_and_tilted_monitor :: monitor where
  \<comment> \<open>a low battery and a pitch of 2 rad (about 115 degrees); home not set\<close>
  "low_and_tilted_monitor =
     SafetyMonitor (Some (mock_vehicle\<lparr>battery_level := 15, pitch := 2\<rparr>)) test_config"

definition refused_monitor :: monitor where
  \<comment> \<open>a low battery on a vehicle that refuses both RTL and LAND\<close>
  "refused_monitor =
     SafetyMonitor (Some (mock_vehicle\<lparr>battery_level := 15, rejects := [''RTL'', ''LAND'']\<rparr>))
       test_config"


section \<open>Properties\<close>

subsection \<open>The haversine term stays in the domain of the square roots\<close>


lemma haversine_a_same: "haversine_a x y x y = 0"
  by (simp add: haversine_a_def radians_def)

lemma sin_sq_le_1: "(sin (x::real))\<^sup>2 \<le> 1"
proof -
  have "(sin x)\<^sup>2 = 1 - (cos x)\<^sup>2" by (rule sin_squared_eq)
  moreover have "0 \<le> (cos x)\<^sup>2" by simp
  ultimately show ?thesis by linarith
qed

lemma cos_product_bounds:
  fixes p q :: real
  shows "- (sin ((q - p) / 2))\<^sup>2 \<le> cos p * cos q"
    and "cos p * cos q \<le> (cos ((q - p) / 2))\<^sup>2"
proof -
  define s2 where "s2 = (sin ((q - p) / 2))\<^sup>2"
  define c2 where "c2 = (cos ((q - p) / 2))\<^sup>2"
  define k where "k = cos (p + q)"
  define m where "m = cos (q - p)"
  have e: "cos p * cos q = (m + k) / 2"
    using cos_times_cos [of q p] by (simp add: m_def k_def add.commute mult.commute)
  have h: "2 * ((q - p) / 2) = q - p" by simp
  have d1: "m = 1 - 2 * s2"
    using cos_double_sin [of "(q - p) / 2"] unfolding h m_def s2_def .
  have d2: "m = 2 * c2 - 1"
    using cos_double_cos [of "(q - p) / 2"] unfolding h m_def c2_def .
  have b1: "- 1 \<le> k" and b2: "k \<le> 1" by (simp_all add: k_def)
  show "- (sin ((q - p) / 2))\<^sup>2 \<le> cos p * cos q"
    unfolding s2_def [symmetric] e using d1 b1 by simp
  show "cos p * cos q \<le> (cos ((q - p) / 2))\<^sup>2"
    unfolding c2_def [symmetric] e using d2 b2 by simp
qed

lemma haversine_a_bounds:
  "0 \<le> haversine_a lat1 lon1 lat2 lon2 \<and> haversine_a lat1 lon1 lat2 lon2 \<le> 1"
proof -
  define p where "p = radians lat1"
  define q where "q = radians lat2"
  define t where "t = (sin (radians (lon2 - lon1) / 2))\<^sup>2"
  define u where "u = (sin ((q - p) / 2))\<^sup>2"
  define w where "w = cos p * cos q"
  have rd: "radians (lat2 - lat1) = q - p"
    by (simp add: radians_def p_def q_def field_simps)
  have a: "haversine_a lat1 lon1 lat2 lon2 = u + w * t"
    by (simp add: haversine_a_def Let_def rd p_def [symmetric] q_def [symmetric]
        t_def u_def w_def)
  have t0: "0 \<le> t" and t1: "t \<le> 1"
    unfolding t_def by (simp_all add: sin_sq_le_1)
  have u0: "0 \<le> u" and u1: "u \<le> 1"
    unfolding u_def by (simp_all add: sin_sq_le_1)
  have cu: "(cos ((q - p) / 2))\<^sup>2 = 1 - u"
    unfolding u_def by (simp add: cos_squared_eq)
  have wl: "- u \<le> w"
    using cos_product_bounds(1) [where p=p and q=q] unfolding u_def w_def .
  have wh: "w \<le> 1 - u"
    using cos_product_bounds(2) [where p=p and q=q] unfolding cu w_def .
  have lo: "- u * t \<le> w * t" using wl t0 by (rule mult_right_mono)
  have hi: "w * t \<le> (1 - u) * t" using wh t0 by (rule mult_right_mono)
  have m1: "u * t \<le> u * 1" using t1 u0 by (rule mult_left_mono)
  have m2: "(1 - u) * t \<le> (1 - u) * 1" using t1 by (rule mult_left_mono) (use u1 in simp)
  have "0 \<le> u + w * t" using lo m1 by simp
  moreover have "u + w * t \<le> 1" using hi m2 by simp
  ultimately show ?thesis unfolding a by simp
qed

lemma math_sqrt_nonneg: "0 \<le> x \<Longrightarrow> math_sqrt x = Inr (sqrt x)"
  by (simp add: math_sqrt_def)

text \<open>Over the reals neither square root of line 167 can raise.\<close>

lemma calculate_distance_total:
  "calculate_distance lat1 lon1 lat2 lon2 = Inr (distance_m lat1 lon1 lat2 lon2)"
  using haversine_a_bounds [of lat1 lon1 lat2 lon2]
  by (simp add: calculate_distance_def distance_m_def Let_def math_sqrt_nonneg)

lemma calculate_distance_same: "calculate_distance x y x y = Inr 0"
  by (simp add: calculate_distance_total distance_m_def haversine_a_same atan2_def)

subsection \<open>Example data\<close>

lemmas test_defs = SafetyMonitor_def mock_vehicle_def test_config_def config_get_def test_env_def

lemma degrees_examples:
  "\<bar>degrees (1 / 10)\<bar> \<le> 45 \<and> \<bar>degrees (5 / 100)\<bar> \<le> 45 \<and> degrees 2 > 45"
  using pi_ge_two pi_less_4 by (simp add: degrees_def field_simps)

subsection \<open>The checks change nothing but the log and the clock\<close>

lemma check_altitude_frame:
  "check_altitude env s = (a, s') \<Longrightarrow>
     vehicle s' = vehicle s \<and> issued s' = issued s \<and>
     emergency_triggered s' = emergency_triggered s"
  by (auto simp add: check_altitude_def log_warning_def Let_def split: option.splits if_splits)

lemma check_battery_frame:
  "check_battery env s = (a, s') \<Longrightarrow>
     vehicle s' = vehicle s \<and> issued s' = issued s \<and>
     emergency_triggered s' = emergency_triggered s"
  by (auto simp add: check_battery_def log_warning_def Let_def split: option.splits if_splits)

lemma check_tilt_frame:
  "check_tilt env s = (a, s') \<Longrightarrow>
     vehicle s' = vehicle s \<and> issued s' = issued s \<and>
     emergency_triggered s' = emergency_triggered s"
  by (auto simp add: check_tilt_def log_warning_def Let_def split: option.splits if_splits)

lemma check_geofence_frame:
  "check_geofence env s = (r, s') \<Longrightarrow>
     vehicle s' = vehicle s \<and> issued s' = issued s \<and>
     emergency_triggered s' = emergency_triggered s"
  by (auto simp add: check_geofence_def log_warning_def Let_def
      split: option.splits if_splits sum.splits)

lemma check_geofence_total: "\<exists>g s'. check_geofence env s = (Inr g, s')"
  by (auto simp add: check_geofence_def calculate_distance_total split: option.splits)

lemma is_safe_total: "\<exists>b s'. is_safe env s = (Inr b, s')"
  using check_geofence_total
  by (auto simp add: is_safe_def split: option.splits prod.splits)

lemma monitor_tick_frame:
  "issued (snd (monitor_tick env s)) = issued s \<and>
   vehicle (snd (monitor_tick env s)) = vehicle s \<and>
   emergency_triggered (snd (monitor_tick env s)) = emergency_triggered s"
proof (cases "vehicle s")
  case None
  then show ?thesis by (simp add: monitor_tick_def)
next
  case (Some v)
  obtain a s1 where c1: "check_altitude env s = (a, s1)" by (cases "check_altitude env s")
  obtain b s2 where c2: "check_battery env s1 = (b, s2)" by (cases "check_battery env s1")
  obtain t s3 where c3: "check_tilt env s2 = (t, s3)" by (cases "check_tilt env s2")
  obtain g s4 where c4: "check_geofence env s3 = (g, s4)" by (cases "check_geofence env s3")
  have "snd (monitor_tick env s) = s4"
    using Some c1 c2 c3 c4 by (simp add: monitor_tick_def split: sum.splits)
  then show ?thesis
    using check_altitude_frame [OF c1] check_battery_frame [OF c2] check_tilt_frame [OF c3]
      check_geofence_frame [OF c4] by simp
qed

text \<open>So the loop as a whole issues nothing, whatever the checks find.\<close>

lemma monitor_loop_never_dispatches:
  assumes "\<forall>pause \<in> set pauses. \<forall>x. issued (pause x) = issued x"
    and "monitor_loop env pauses s = Some (r, s')"
  shows "issued s' = issued s"
  using assms
proof (induction pauses arbitrary: s)
  case Nil
  then show ?case by (simp split: if_splits)
next
  case (Cons pause pauses)
  obtain q s1 where t: "monitor_tick env s = (q, s1)" by (cases "monitor_tick env s")
  have f: "issued s1 = issued s" using monitor_tick_frame [of env s] t by simp
  show ?case
  proof (cases "monitoring s")
    case False
    with Cons.prems show ?thesis by simp
  next
    case True
    show ?thesis
    proof (cases q)
      case (Inl e)
      with Cons.prems True t f show ?thesis by simp
    next
      case (Inr u)
      with Cons.prems True t have "monitor_loop env pauses (pause s1) = Some (r, s')" by simp
      moreover have "\<forall>p \<in> set pauses. \<forall>x. issued (p x) = issued x" using Cons.prems by simp
      ultimately have "issued s' = issued (pause s1)" by (rule Cons.IH [rotated])
      then show ?thesis using Cons.prems(1) f by simp
    qed
  qed
qed

subsection \<open>Commands issued by one dispatch\<close>

lemmas dispatch_defs = dispatch_cause_def check_battery_def check_tilt_def check_altitude_def
  check_geofence_def calculate_distance_total return_to_home_def emergency_land_def
  descend_to_safe_altitude_def log_warning_def assign_mode_def Let_def

lemma dispatch_cause_issued:
  assumes "vehicle s = Some v"
  shows "dispatch_cause env s = (r, s') \<Longrightarrow>
     (case r of
        Inl e \<Rightarrow> issued s' = issued s \<and> vehicle s' = Some v
      | Inr u \<Rightarrow> length (issued s') \<le> Suc (length (issued s)))"
  using assms
  by (auto simp add: dispatch_defs split: option.splits if_splits sum.splits prod.splits)

lemma emergency_protocol_at_most_one:
  "length (issued (snd (emergency_protocol env s))) \<le> Suc (length (issued s))"
proof (cases "vehicle s")
  case None
  then show ?thesis by (simp add: emergency_protocol_def)
next
  case (Some v)
  obtain r s1 where d: "dispatch_cause env s = (r, s1)" by (cases "dispatch_cause env s")
  show ?thesis
  proof (cases r)
    case (Inl e)
    with dispatch_cause_issued [OF Some d]
    have "issued s1 = issued s" "vehicle s1 = Some v" by simp_all
    then show ?thesis using Some d Inl
      by (simp add: emergency_protocol_def emergency_land_def assign_mode_def)
  next
    case (Inr u)
    with dispatch_cause_issued [OF Some d] show ?thesis using Some d
      by (simp add: emergency_protocol_def)
  qed
qed

lemma emergency_protocol_exactly_one:
  assumes "vehicle s = Some v" and "''LAND'' \<notin> set (rejects v)"
    and "\<not> fst (check_battery env s) \<or> \<not> fst (check_tilt env s) \<or>
         fst (check_geofence env s) = Inr False \<or> \<not> fst (check_altitude env s)"
  shows "length (issued (snd (emergency_protocol env s))) = Suc (length (issued s))"
  using assms
  by (auto simp add: emergency_protocol_def dispatch_defs
      split: option.splits if_splits sum.splits prod.splits)

lemma overlapping_requests_eq:
  "\<not> emergency_triggered s \<Longrightarrow> overlapping_requests env s = handle_emergency env s"
  by (simp add: overlapping_requests_def handle_emergency_def Let_def)

subsection \<open>The status report never raises\<close>

lemma status_distance_total: "\<exists>d. status_distance s v = Inr d"
  by (simp add: status_distance_def calculate_distance_total Let_def split: option.splits)

lemma get_safety_status_with_vehicle:
  assumes "vehicle s = Some v"
  shows "\<exists>report s'. get_safety_status env s = (Inr report, s') \<and>
     map fst report = [''safe'', ''mode'', ''altitude'', ''battery'', ''tilt_pitch'',
                       ''tilt_roll'', ''distance_from_home'', ''warnings''] \<and>
     map_of report ''warnings'' = Some (PNum (real (length (safety_log s'))))"
proof -
  obtain b s' where i: "is_safe env s = (Inr b, s')" using is_safe_total by blast
  obtain d where d: "status_distance s v = Inr d" using status_distance_total by blast
  show ?thesis using assms i d by (simp add: get_safety_status_def)
qed

subsection \<open>The exported text and its lines\<close>

lemma write_entries_concat:
  "write_entries f entries = f @ concat (map (\<lambda>entry. entry @ [newline]) entries)"
  by (induction entries arbitrary: f) simp_all

lemma split_lines_line:
  "newline \<notin> set l \<Longrightarrow> split_lines cur (l @ newline # rest) = (cur @ l) # split_lines [] rest"
  by (induction l arbitrary: cur) auto

lemma split_lines_entries:
  "\<forall>e \<in> set es. newline \<notin> set e \<Longrightarrow>
     split_lines [] (concat (map (\<lambda>entry. entry @ [newline]) es)) = es"
proof (induction es)
  case Nil
  then show ?case by simp
next
  case (Cons e es)
  then show ?case
    using split_lines_line [of e "[]" "concat (map (\<lambda>entry. entry @ [newline]) es)"]
    by simp
qed

lemma split_lines_file:
  assumes "\<forall>e \<in> set es. newline \<notin> set e"
  shows "split_lines [] (log_file_text es) = ''=== Drone Safety Log ==='' # [] # es"
proof -
  have h: "newline \<notin> set ''=== Drone Safety Log ===''" by (simp add: newline_def)
  have "log_file_text es =
      ''=== Drone Safety Log ==='' @ newline #
        ([] @ newline # concat (map (\<lambda>entry. entry @ [newline]) es))"
    by (simp add: log_file_text_def write_entries_concat)
  then show ?thesis
    using split_lines_line [OF h, of "[]"] split_lines_line [of "[]" "[]"]
      split_lines_entries [OF assms]
    by simp
qed

lemma parse_entry_log_entry:
  assumes "CHR '']'' \<notin> set ts"
  shows "parse_entry (log_entry ts m) = Some (ts, m)"
proof -
  have t: "takeWhile (\<lambda>x. x \<noteq> CHR '']'') (ts @ CHR '']'' # CHR '' '' # m) = ts"
    using assms by (induction ts) auto
  have d: "dropWhile (\<lambda>x. x \<noteq> CHR '']'') (ts @ CHR '']'' # CHR '' '' # m)
      = CHR '']'' # CHR '' '' # m"
    using assms by (induction ts) auto
  show ?thesis by (simp add: parse_entry_def log_entry_def t d)
qed

lemma digit_in: "digit n \<in> set ''0123456789''"
  unfolding digit_def by (rule nth_mem) simp

lemma strftime_chars: "set (strftime dt) \<subseteq> set ''0123456789-: ''"
  using digit_in by (auto simp add: strftime_def zero_pad2_def zero_pad4_def)

lemma strftime_clean: "CHR '']'' \<notin> set (strftime dt) \<and> newline \<notin> set (strftime dt)"
  using strftime_chars [of dt] by (auto simp add: newline_def)

lemma log_warning_fields:
  "safety_log (log_warning env m s)
     = safety_log s @ [log_entry (strftime (now_at env (clock s))) m]"
  "clock (log_warning env m s) = Suc (clock s)"
  by (simp_all add: log_warning_def Let_def)

lemma log_warnings_log:
  "safety_log (log_warnings env ms s) =
     safety_log s @ map (\<lambda>(t, m). log_entry t m) (stamped env (clock s) ms)"
  by (induction ms arbitrary: s) (simp_all add: log_warning_fields)

lemma stamped_clean:
  "(t, m) \<in> set (stamped env c ms) \<Longrightarrow>
     CHR '']'' \<notin> set t \<and> newline \<notin> set t \<and> m \<in> set ms"
  by (induction ms arbitrary: c) (auto simp add: strftime_clean)

lemma those_parse_entries:
  "\<forall>(t, m) \<in> set ps. CHR '']'' \<notin> set t \<Longrightarrow>
     those (map parse_entry (map (\<lambda>(t, m). log_entry t m) ps)) = Some ps"
  by (induction ps) (auto simp add: parse_entry_log_entry)

lemma log_entry_no_newline:
  "newline \<notin> set t \<Longrightarrow> newline \<notin> set m \<Longrightarrow> newline \<notin> set (log_entry t m)"
  by (simp add: log_entry_def newline_def)

lemma entries_text:
  "concat (map (\<lambda>entry. entry @ [newline]) (map (\<lambda>(t, m). log_entry t m) ps)) =
   concat (map (\<lambda>(t, m). ''['' @ t @ ''] '' @ m @ [newline]) ps)"
  by (induction ps) (auto simp add: log_entry_def)

lemmas strftime_defs = strftime_def zero_pad2_def zero_pad4_def digit_def

section \<open>The claims\<close>

subsection \<open>C1: what one tick of the background loop does\<close>

text \<open>
  Claim C1 says that a tick in which a check fails invokes \<open>handle_emergency\<close>, and that
  the tick runs the checks in the order altitude, battery, tilt, geofence and logs every
  failing one. The loop body drops the results of the checks and calls nothing else, so no
  tick ever reaches \<open>handle_emergency\<close> (\<open>monitor_tick_frame\<close>, \<open>monitor_loop_never_dispatches\<close>). At a vehicle that is above
  the altitude limit with a low battery, the tick returns normally, logs the altitude warning
  and then the battery warning, issues no command and leaves the vehicle as it was, although
  a call of \<open>handle_emergency\<close> in that state issues "return to launch".
\<close>

theorem monitor_tick_logs_but_never_dispatches:
  "fst (monitor_tick env high_and_low_monitor) = Inr () \<and>
   safety_log (snd (monitor_tick env high_and_low_monitor)) =
     [log_entry (strftime (now_at env 0))
        (''Altitude exceeded: '' @ fmt_1f env 12 @ ''m > '' @ fmt_str env 10 @ ''m''),
      log_entry (strftime (now_at env 1))
        (''Low battery: '' @ fmt_str env 15 @ ''% < '' @ fmt_str env 20 @ ''%'')] \<and>
   issued (snd (monitor_tick env high_and_low_monitor)) = [] \<and>
   vehicle (snd (monitor_tick env high_and_low_monitor)) = vehicle high_and_low_monitor \<and>
   issued (snd (handle_emergency env high_and_low_monitor)) = [SetMode ''RTL'']"
  using degrees_examples
  by (simp add: high_and_low_monitor_def test_defs monitor_tick_def handle_emergency_def
      emergency_protocol_def dispatch_defs)

subsection \<open>C2: battery and tilt failing together\<close>

text \<open>
  Claim C2, amended. In every call of \<open>handle_emergency\<close> with the flag clear and a vehicle
  attached in which both the battery check and the tilt check fail, battery takes priority
  whether or not the home position is set: if the vehicle accepts the mode RTL, "return to
  launch" is the one command issued; "emergency land" (mode LAND) is issued only as the
  fallback when the vehicle refuses RTL, and then it is the one command issued. The two
  are never both issued.
\<close>

theorem battery_before_tilt:
  assumes "vehicle s = Some v" and "\<not> emergency_triggered s"
    and "battery_level v < min_battery s"
    and "\<bar>degrees (pitch v)\<bar> > max_tilt_angle s \<or> \<bar>degrees (roll v)\<bar> > max_tilt_angle s"
  shows "issued (snd (handle_emergency env s)) =
           issued s @ (if ''RTL'' \<notin> set (rejects v) then [SetMode ''RTL'']
                       else if ''LAND'' \<notin> set (rejects v) then [SetMode ''LAND'']
                       else [])"
  using assms
  by (auto simp add: handle_emergency_def emergency_protocol_def dispatch_defs)

theorem battery_before_tilt_witness:
  "issued (snd (handle_emergency test_env (set_home_position low_and_tilted_monitor)))
     = [SetMode ''RTL'']"
proof -
  let ?m = "set_home_position low_and_tilted_monitor"
  let ?v = "mock_vehicle\<lparr>battery_level := 15, pitch := 2\<rparr>"
  have a: "vehicle ?m = Some ?v" "\<not> emergency_triggered ?m"
    "battery_level ?v < min_battery ?m"
    "\<bar>degrees (pitch ?v)\<bar> > max_tilt_angle ?m \<or> \<bar>degrees (roll ?v)\<bar> > max_tilt_angle ?m"
    "issued ?m = []" "rejects ?v = []"
    using degrees_examples
    by (simp_all add: low_and_tilted_monitor_def set_home_position_def test_defs)
  show ?thesis
    using battery_before_tilt [OF a(1-4), of test_env] a(5,6) by simp
qed

text \<open>
  The claim as stated fails where the home position is unset: the battery cause does not
  fall through, and the command is "return to launch", not "emergency land".
\<close>

theorem battery_before_tilt_home_unset_counterexample:
  "home_lat low_and_tilted_monitor = None \<and> home_lon low_and_tilted_monitor = None \<and>
   \<not> emergency_triggered low_and_tilted_monitor \<and>
   \<not> fst (check_battery test_env low_and_tilted_monitor) \<and>
   \<not> fst (check_tilt test_env low_and_tilted_monitor) \<and>
   issued (snd (handle_emergency test_env low_and_tilted_monitor)) = [SetMode ''RTL'']"
  using degrees_examples
  by (simp add: low_and_tilted_monitor_def test_defs handle_emergency_def
      emergency_protocol_def dispatch_defs)

subsection \<open>C3: release of the guard flag\<close>

text \<open>
  Claim C3, amended. For every call of \<open>handle_emergency\<close> made with the flag clear and a
  vehicle attached, \<open>emergency_triggered\<close> is False again when the call returns, whether
  the dispatch succeeded, fell back to "emergency land", or raised out of the fallback.
\<close>

theorem guard_released:
  assumes "vehicle s = Some v" and "\<not> emergency_triggered s"
  shows "\<not> emergency_triggered (snd (handle_emergency env s))"
  using assms by (simp add: handle_emergency_def emergency_protocol_def split: prod.splits)

theorem guard_released_witness:
  "fst (handle_emergency test_env refused_monitor) = Inl (CommandRejected ''LAND'') \<and>
   \<not> emergency_triggered (snd (handle_emergency test_env refused_monitor))"
proof -
  have a: "vehicle refused_monitor =
      Some (mock_vehicle\<lparr>battery_level := 15, rejects := [''RTL'', ''LAND'']\<rparr>)"
    "\<not> emergency_triggered refused_monitor"
    by (simp_all add: refused_monitor_def test_defs)
  have "fst (handle_emergency test_env refused_monitor) = Inl (CommandRejected ''LAND'')"
    by (simp add: refused_monitor_def test_defs handle_emergency_def
        emergency_protocol_def dispatch_defs)
  then show ?thesis using guard_released [OF a, of test_env] by simp
qed

text \<open>
  The claim as stated covers the early return of line 185 as well; a call that finds the
  flag set returns with the flag still set.
\<close>

theorem guard_kept_counterexample:
  "emergency_triggered (test_monitor\<lparr>emergency_triggered := True\<rparr>) \<and>
   emergency_triggered
     (snd (handle_emergency test_env (test_monitor\<lparr>emergency_triggered := True\<rparr>)))"
  by (simp add: handle_emergency_def)

subsection \<open>C4: a request made while the flag is set\<close>

text \<open>
  Claim C4. A call of \<open>handle_emergency\<close> made while \<open>emergency_triggered\<close> is set returns
  at once: it issues no command and leaves the whole state as it was. Hence two overlapping
  requests do exactly what the first does alone and never issue two commands; they issue
  exactly one when a check fails and the vehicle accepts the mode LAND (the fallback), so
  that the dispatch has a command to issue.
\<close>

theorem guarded_request_is_noop:
  "(emergency_triggered s \<longrightarrow> handle_emergency env s = (Inr (), s)) \<and>
   (\<not> emergency_triggered s \<longrightarrow>
      overlapping_requests env s = handle_emergency env s \<and>
      length (issued (snd (overlapping_requests env s))) \<le> Suc (length (issued s))) \<and>
   (\<not> emergency_triggered s \<and> vehicle s = Some v \<and> ''LAND'' \<notin> set (rejects v) \<and>
    (\<not> fst (check_battery env s) \<or> \<not> fst (check_tilt env s) \<or>
     fst (check_geofence env s) = Inr False \<or> \<not> fst (check_altitude env s)) \<longrightarrow>
      length (issued (snd (overlapping_requests env s))) = Suc (length (issued s)))"
proof (intro conjI impI)
  assume "emergency_triggered s"
  then show "handle_emergency env s = (Inr (), s)" by (simp add: handle_emergency_def)
next
  assume "\<not> emergency_triggered s"
  then show "overlapping_requests env s = handle_emergency env s"
    by (rule overlapping_requests_eq)
next
  assume n: "\<not> emergency_triggered s"
  have "handle_emergency env s = emergency_protocol env (s\<lparr>emergency_triggered := True\<rparr>)"
    using n by (simp add: handle_emergency_def)
  then show "length (issued (snd (overlapping_requests env s))) \<le> Suc (length (issued s))"
    using emergency_protocol_at_most_one [of env "s\<lparr>emergency_triggered := True\<rparr>"]
      overlapping_requests_eq [OF n, of env] by simp
next
  assume h: "\<not> emergency_triggered s \<and> vehicle s = Some v \<and> ''LAND'' \<notin> set (rejects v) \<and>
    (\<not> fst (check_battery env s) \<or> \<not> fst (check_tilt env s) \<or>
     fst (check_geofence env s) = Inr False \<or> \<not> fst (check_altitude env s))"
  let ?s1 = "s\<lparr>emergency_triggered := True\<rparr>"
  have same: "fst (check_battery env ?s1) = fst (check_battery env s)"
    "fst (check_tilt env ?s1) = fst (check_tilt env s)"
    "fst (check_geofence env ?s1) = fst (check_geofence env s)"
    "fst (check_altitude env ?s1) = fst (check_altitude env s)"
    by (simp_all add: check_battery_def check_tilt_def check_geofence_def check_altitude_def
        Let_def split: option.splits sum.splits)
  have "length (issued (snd (emergency_protocol env ?s1))) = Suc (length (issued ?s1))"
    using h by (intro emergency_protocol_exactly_one [of ?s1 v]) (simp_all add: same)
  then show "length (issued (snd (overlapping_requests env s))) = Suc (length (issued s))"
    using h overlapping_requests_eq [of s env] by (simp add: handle_emergency_def)
qed

theorem guarded_request_is_noop_witness:
  "handle_emergency test_env (high_and_low_monitor\<lparr>emergency_triggered := True\<rparr>)
     = (Inr (), high_and_low_monitor\<lparr>emergency_triggered := True\<rparr>) \<and>
   overlapping_requests test_env high_and_low_monitor
     = handle_emergency test_env high_and_low_monitor \<and>
   length (issued (snd (overlapping_requests test_env high_and_low_monitor))) = 1"
proof -
  let ?m = high_and_low_monitor
  let ?v = "mock_vehicle\<lparr>alt := 12, battery_level := 15\<rparr>"
  have a: "\<not> emergency_triggered ?m" "vehicle ?m = Some ?v" "''LAND'' \<notin> set (rejects ?v)"
    "\<not> fst (check_battery test_env ?m)" "issued ?m = []"
    by (simp_all add: high_and_low_monitor_def test_defs check_battery_def)
  have b: "emergency_triggered (?m\<lparr>emergency_triggered := True\<rparr>)" by simp
  have first: "handle_emergency test_env (?m\<lparr>emergency_triggered := True\<rparr>)
     = (Inr (), ?m\<lparr>emergency_triggered := True\<rparr>)"
    using guarded_request_is_noop [of "?m\<lparr>emergency_triggered := True\<rparr>" test_env] b
    by blast
  have both: "overlapping_requests test_env ?m = handle_emergency test_env ?m"
    and one: "length (issued (snd (overlapping_requests test_env ?m))) = Suc (length (issued ?m))"
    using guarded_request_is_noop [of ?m test_env ?v] a(1-4) by blast+
  show ?thesis
    using first both one unfolding a(5) by simp
qed

subsection \<open>C5: \<open>is_safe\<close> within the limits\<close>

text \<open>
  Claim C5. \<open>is_safe\<close> returns True whenever no vehicle is attached; and for an attached
  vehicle whose readings satisfy altitude \<open>\<le>\<close> \<open>max_altitude\<close>, battery \<open>\<ge>\<close> \<open>min_battery\<close>,
  \<open>|pitch|\<close> and \<open>|roll|\<close> (in degrees) \<open>\<le>\<close> \<open>max_tilt_angle\<close>, and distance from home
  \<open>\<le>\<close> \<open>geofence_radius\<close> (or the geofence disabled, or home unset), it returns True and
  leaves the state, the log included, as it was.
\<close>

theorem is_safe_within_limits:
  assumes "vehicle s = None \<or>
    (\<exists>v. vehicle s = Some v \<and> alt v \<le> max_altitude s \<and> min_battery s \<le> battery_level v \<and>
       \<bar>degrees (pitch v)\<bar> \<le> max_tilt_angle s \<and> \<bar>degrees (roll v)\<bar> \<le> max_tilt_angle s \<and>
       (\<not> geofence_enabled s \<or> home_lat s = None \<or> home_lon s = None \<or>
        (\<exists>hlat hlon d. home_lat s = Some hlat \<and> home_lon s = Some hlon \<and>
           calculate_distance hlat hlon (lat v) (lon v) = Inr d \<and> d \<le> geofence_radius s)))"
  shows "is_safe env s = (Inr True, s)"
  using assms
  by (auto simp add: is_safe_def check_altitude_def check_battery_def check_tilt_def
      check_geofence_def Let_def split: option.splits)

theorem is_safe_within_limits_witness:
  "is_safe test_env sim_monitor = (Inr True, sim_monitor) \<and>
   is_safe test_env test_monitor = (Inr True, test_monitor) \<and>
   safety_log (snd (is_safe test_env test_monitor)) = []"
proof -
  have a: "vehicle sim_monitor = None"
    by (simp add: sim_monitor_def SafetyMonitor_def)
  have b: "vehicle test_monitor = Some mock_vehicle \<and>
     alt mock_vehicle \<le> max_altitude test_monitor \<and>
     min_battery test_monitor \<le> battery_level mock_vehicle \<and>
     \<bar>degrees (pitch mock_vehicle)\<bar> \<le> max_tilt_angle test_monitor \<and>
     \<bar>degrees (roll mock_vehicle)\<bar> \<le> max_tilt_angle test_monitor \<and>
     home_lat test_monitor = Some (lat mock_vehicle) \<and>
     home_lon test_monitor = Some (lon mock_vehicle) \<and>
     calculate_distance (lat mock_vehicle) (lon mock_vehicle) (lat mock_vehicle) (lon mock_vehicle)
       = Inr 0 \<and>
     0 \<le> geofence_radius test_monitor"
    using degrees_examples
    by (simp add: test_monitor_def set_home_position_def test_defs calculate_distance_same)
  have l: "safety_log test_monitor = []"
    by (simp add: test_monitor_def set_home_position_def test_defs)
  have "is_safe test_env sim_monitor = (Inr True, sim_monitor)"
    using is_safe_within_limits [of sim_monitor test_env] a by blast
  moreover have "is_safe test_env test_monitor = (Inr True, test_monitor)"
    using is_safe_within_limits [of test_monitor test_env] b by blast
  ultimately show ?thesis using l by simp
qed

subsection \<open>C6: \<open>set_home_position\<close>\<close>

text \<open>
  Claim C6, amended. With no vehicle attached \<open>set_home_position\<close> records the mock home
  position (0.0, 0.0); with a vehicle attached it records the vehicle's current latitude
  and longitude. In both cases nothing else of the state changes.
\<close>

theorem set_home_position_records:
  "(vehicle s = None \<longrightarrow>
      set_home_position s = s\<lparr>home_lat := Some 0, home_lon := Some 0\<rparr>) \<and>
   (\<forall>v. vehicle s = Some v \<longrightarrow>
      set_home_position s = s\<lparr>home_lat := Some (lat v), home_lon := Some (lon v)\<rparr>)"
  by (simp add: set_home_position_def)

theorem set_home_position_records_witness:
  "set_home_position sim_monitor = sim_monitor\<lparr>home_lat := Some 0, home_lon := Some 0\<rparr> \<and>
   home_lat test_monitor = Some 13.7563 \<and> home_lon test_monitor = Some 100.5018"
proof -
  let ?m = "SafetyMonitor (Some mock_vehicle) test_config"
  have a: "vehicle sim_monitor = None" by (simp add: sim_monitor_def SafetyMonitor_def)
  have b: "vehicle ?m = Some mock_vehicle" by (simp add: SafetyMonitor_def)
  have "set_home_position ?m = ?m\<lparr>home_lat := Some (lat mock_vehicle), home_lon := Some (lon mock_vehicle)\<rparr>"
    using set_home_position_records [of ?m] b by blast
  then have "home_lat test_monitor = Some 13.7563 \<and> home_lon test_monitor = Some 100.5018"
    by (simp add: test_monitor_def mock_vehicle_def)
  then show ?thesis using set_home_position_records [of sim_monitor] a by blast
qed

text \<open>
  The claim as stated has the call without a vehicle leave the home position unchanged; on
  a fresh monitor it changes the home position from unset to (0.0, 0.0).
\<close>

theorem set_home_position_no_vehicle_counterexample:
  "vehicle sim_monitor = None \<and> home_lat sim_monitor = None \<and> home_lon sim_monitor = None \<and>
   home_lat (set_home_position sim_monitor) = Some 0 \<and>
   home_lon (set_home_position sim_monitor) = Some 0 \<and>
   set_home_position sim_monitor \<noteq> sim_monitor"
  by (simp add: set_home_position_def sim_monitor_def test_defs)

subsection \<open>C7: the fields of the status report\<close>

text \<open>
  Claim C7 says that the report has the fields \<open>safe\<close>, \<open>mode\<close>, \<open>altitude\<close>, \<open>battery\<close>,
  \<open>tilt_pitch\<close>, \<open>tilt_roll\<close>, \<open>distance_from_home\<close> and \<open>warnings\<close> in every state, with
  \<open>warnings\<close> the number of log entries. With a vehicle attached it does
  (\<open>get_safety_status_with_vehicle\<close>). Without a vehicle the report has the six fields
  \<open>safe\<close>, \<open>mode\<close>, \<open>altitude\<close>, \<open>battery\<close>, \<open>tilt\<close> and \<open>distance_from_home\<close>: no
  \<open>tilt_pitch\<close>, no \<open>tilt_roll\<close> and no \<open>warnings\<close>.
\<close>

theorem get_safety_status_simulation_fields:
  "fst (get_safety_status env sim_monitor) =
     Inr [(''safe'', PBool True), (''mode'', PStr ''SIMULATION''), (''altitude'', PNum 0),
          (''battery'', PNum 100), (''tilt'', PNum 0), (''distance_from_home'', PNum 0)] \<and>
   map fst [(''safe'', PBool True), (''mode'', PStr ''SIMULATION''), (''altitude'', PNum 0),
            (''battery'', PNum 100), (''tilt'', PNum 0), (''distance_from_home'', PNum (0::real))]
     \<noteq> [''safe'', ''mode'', ''altitude'', ''battery'', ''tilt_pitch'', ''tilt_roll'',
         ''distance_from_home'', ''warnings'']"
  by (simp add: get_safety_status_def sim_monitor_def SafetyMonitor_def)

subsection \<open>C8: the distance of a point to itself, and symmetry\<close>


subsection \<open>C9: the exported log and reading it back\<close>

text \<open>
  Claim C9, amended. For every sequence of warnings whose messages contain no line break,
  logged on a monitor whose log was empty, \<open>save_log\<close> writes the header line
  \<open>=== Drone Safety Log ===\<close>, a blank line, and then one line \<open>[timestamp] message\<close>
  per entry in the order of the calls; reading that text back gives the same sequence of
  (timestamp, message) pairs.
\<close>

theorem save_log_roundtrip:
  assumes "safety_log s = []" and "\<forall>m \<in> set msgs. newline \<notin> set m"
  shows "save_log (log_warnings env msgs s) filename files filename =
            Some (''=== Drone Safety Log ==='' @ [newline] @ [newline] @
                  concat (map (\<lambda>(t, m). ''['' @ t @ ''] '' @ m @ [newline])
                            (stamped env (clock s) msgs)))
       \<and> read_log (log_file_text (safety_log (log_warnings env msgs s)))
           = Some (stamped env (clock s) msgs)"
proof -
  let ?ps = "stamped env (clock s) msgs"
  let ?es = "map (\<lambda>(t, m). log_entry t m) ?ps"
  have lg: "safety_log (log_warnings env msgs s) = ?es"
    using assms(1) by (simp add: log_warnings_log)
  have nl: "\<forall>e \<in> set ?es. newline \<notin> set e"
    using stamped_clean [of _ _ env "clock s" msgs] assms(2)
    by (auto simp add: log_entry_no_newline)
  have br: "\<forall>(t, m) \<in> set ?ps. CHR '']'' \<notin> set t"
    using stamped_clean [of _ _ env "clock s" msgs] by auto
  have body: "concat (map (\<lambda>entry. entry @ [newline]) ?es) =
       concat (map (\<lambda>(t, m). ''['' @ t @ ''] '' @ m @ [newline]) ?ps)"
    by (rule entries_text)
  have f1: "save_log (log_warnings env msgs s) filename files filename =
            Some (''=== Drone Safety Log ==='' @ [newline] @ [newline] @
                  concat (map (\<lambda>(t, m). ''['' @ t @ ''] '' @ m @ [newline]) ?ps))"
    unfolding save_log_def lg log_file_text_def write_entries_concat body by simp
  have f2: "read_log (log_file_text ?es) = Some ?ps"
    unfolding read_log_def split_lines_file [OF nl] using those_parse_entries [OF br] by simp
  show ?thesis using f1 f2 unfolding lg by simp
qed

theorem save_log_roundtrip_witness:
  "read_log (log_file_text (safety_log
      (log_warnings test_env [''Test warning triggered manually'', ''second''] sim_monitor)))
   = Some [(''2024-05-17 09:30:00'', ''Test warning triggered manually''),
           (''2024-05-17 09:30:01'', ''second'')]"
proof -
  have a: "safety_log sim_monitor = []" "clock sim_monitor = 0"
    by (simp_all add: sim_monitor_def SafetyMonitor_def)
  have b: "\<forall>m \<in> set [''Test warning triggered manually'', ''second'']. newline \<notin> set m"
    by (simp add: newline_def)
  have c: "stamped test_env 0 [''Test warning triggered manually'', ''second''] =
     [(''2024-05-17 09:30:00'', ''Test warning triggered manually''),
           (''2024-05-17 09:30:01'', ''second'')]"
    by (simp add: test_env_def strftime_defs)
  show ?thesis
    using save_log_roundtrip [OF a(1) b, of test_env] unfolding a(2) c by simp
qed

text \<open>
  The claim as stated is for every sequence of warnings. A message with a line break
  takes more than one line of the file: one warning whose message continues with a line
  that looks like an entry gives the same file as two warnings do, so no reader can give
  back what was logged.
\<close>

theorem save_log_line_break_counterexample:
  "log_file_text (safety_log
      (log_warnings test_env [''a'' @ [newline] @ ''[2024-05-17 09:30:01] b''] sim_monitor))
    = log_file_text (safety_log (log_warnings test_env [''a'', ''b''] sim_monitor)) \<and>
   stamped test_env 0 [''a'' @ [newline] @ ''[2024-05-17 09:30:01] b'']
    \<noteq> stamped test_env 0 [''a'', ''b''] \<and>
   clock sim_monitor = 0"
  by (simp add: log_file_text_def log_warning_def log_entry_def strftime_defs
      sim_monitor_def test_defs Let_def)

subsection \<open>C10: a home position on the equator or the prime meridian\<close>



end
